theory Spec2Isabelle
  imports Complex_Main
begin

section \<open>Data model of \<open>least_squares.py\<close>\<close>

text \<open>
  The function \<open>least_squares(x, y)\<close> takes two one-dimensional numpy arrays of
  floating-point numbers. The array operations it uses (\<open>x**2\<close>, \<open>x * y\<close>,
  \<open>y - (a + b * x)\<close>, \<open>np.sum\<close>) are defined on arrays only, so the inputs are
  modelled as arrays: an array is the list of its elements.

  Arithmetic is the arithmetic of the real numbers: rounding, overflow and the
  infinities of IEEE floating point are outside the model. The one non-number that
  the real-valued computation itself can produce is kept: \<open>np.sqrt\<close> of a negative
  number is \<open>nan\<close>, and \<open>nan\<close> propagates through arithmetic.
\<close>

type_synonym ndarray = "real list"

datatype npfloat = Num real | NaN

text \<open>
  The exceptions the function can raise: \<open>sys.exit()\<close> raises \<open>SystemExit\<close> (with no
  exit status), and numpy raises \<open>ValueError\<close> when two arrays cannot be broadcast
  together.
\<close>

datatype exn = SystemExit | ValueError

text \<open>
  Standard output, the one piece of state outside the call that the function
  touches: the lines printed so far.
\<close>

type_synonym stdout = "string list"

section \<open>The numpy and builtin operations used\<close>

definition py_print :: "string \<Rightarrow> stdout \<Rightarrow> stdout" where
  "py_print line out = out @ [line]"

definition np_sum :: "ndarray \<Rightarrow> real" where
  "np_sum v = sum_list v"

text \<open>\<open>v ** k\<close> and the scalar-array operations \<open>c * v\<close>, \<open>c + v\<close>: elementwise.\<close>

definition arr_pow :: "ndarray \<Rightarrow> nat \<Rightarrow> ndarray" where
  "arr_pow v k = map (\<lambda>e. e ^ k) v"

definition scalar_mul :: "real \<Rightarrow> ndarray \<Rightarrow> ndarray" where
  "scalar_mul c v = map (\<lambda>e. c * e) v"

definition scalar_add :: "real \<Rightarrow> ndarray \<Rightarrow> ndarray" where
  "scalar_add c v = map (\<lambda>e. c + e) v"

text \<open>
  A binary operation on two one-dimensional arrays: elementwise when the lengths
  agree, an array of length one is stretched to the other's length, and any other
  pair of lengths raises \<open>ValueError\<close>.
\<close>

definition broadcast :: "(real \<Rightarrow> real \<Rightarrow> real) \<Rightarrow> ndarray \<Rightarrow> ndarray \<Rightarrow> exn + ndarray" where
  "broadcast f u v =
     (if length u = length v then Inr (map2 f u v)
      else if length u = 1 then Inr (map (\<lambda>e. f (hd u) e) v)
      else if length v = 1 then Inr (map (\<lambda>e. f e (hd v)) u)
      else Inl ValueError)"

definition arr_mul :: "ndarray \<Rightarrow> ndarray \<Rightarrow> exn + ndarray" where
  "arr_mul u v = broadcast (\<lambda>p q. p * q) u v"

definition arr_sub :: "ndarray \<Rightarrow> ndarray \<Rightarrow> exn + ndarray" where
  "arr_sub u v = broadcast (\<lambda>p q. p - q) u v"

text \<open>\<open>np.sqrt\<close>: \<open>nan\<close> on a negative argument and on \<open>nan\<close>.\<close>

fun np_sqrt :: "npfloat \<Rightarrow> npfloat" where
  "np_sqrt NaN = NaN"
| "np_sqrt (Num v) = (if v < 0 then NaN else Num (sqrt v))"

text \<open>Arithmetic on a value that may be \<open>nan\<close>.\<close>

fun nf_lift :: "(real \<Rightarrow> real) \<Rightarrow> npfloat \<Rightarrow> npfloat" where
  "nf_lift f NaN = NaN"
| "nf_lift f (Num v) = Num (f v)"

section \<open>The function \<open>least_squares\<close>\<close>

text \<open>
  The result of a call: the new contents of standard output, and either the
  exception raised or the returned list \<open>[a, b, sigma, sigma_a, sigma_b]\<close>.
\<close>

definition least_squares :: "ndarray \<Rightarrow> ndarray \<Rightarrow> stdout \<Rightarrow> stdout \<times> (exn + npfloat list)" where
  "least_squares x y out =
     (let N = int (length x) in
      if N \<le> 2 then
        (py_print ''Error! Need at least two data points!'' out, Inl SystemExit)
      else
        let s_x = np_sum x;
            s_y = np_sum y;
            s_xx = np_sum (arr_pow x 2)
        in
        case arr_mul x y of
          Inl e \<Rightarrow> (out, Inl e)
        | Inr xy \<Rightarrow>
            let s_xy = np_sum xy;
                denom = of_int N * s_xx - s_x ^ 2
            in
            if \<bar>denom\<bar> < 1 / 1000000 then
              (py_print ''Error! Denomominator is zero!'' out, Inl SystemExit)
            else
              let a = (s_xx * s_y - s_x * s_xy) / denom;
                  b = (of_int N * s_xy - s_x * s_y) / denom
              in
              if N > 2 then
                case arr_sub y (scalar_add a (scalar_mul b x)) of
                  Inl e \<Rightarrow> (out, Inl e)
                | Inr res \<Rightarrow>
                    let sigma = np_sqrt (Num (np_sum (arr_pow res 2) / of_int (N - 2)));
                        sigma_a = np_sqrt (nf_lift (\<lambda>s. s ^ 2 * s_xx / denom) sigma);
                        sigma_b = np_sqrt (nf_lift (\<lambda>s. s ^ 2 * of_int N / denom) sigma)
                    in (out, Inr [Num a, Num b, sigma, sigma_a, sigma_b])
              else
                (out, Inr [Num a, Num b, Num 0, Num 0, Num 0]))"

text \<open>
  The value the function assigns to \<open>denom\<close>, as a function of \<open>x\<close> alone
  (\<open>N = len(x)\<close>, \<open>s_x = np.sum(x)\<close>, \<open>s_xx = np.sum(x**2)\<close>,
  \<open>denom = N * s_xx - s_x**2\<close>).
\<close>

definition denom_of :: "ndarray \<Rightarrow> real" where
  "denom_of x = of_int (int (length x)) * np_sum (arr_pow x 2) - (np_sum x) ^ 2"

text \<open>The two messages the guards print.\<close>

definition msg_too_few :: string where
  "msg_too_few = ''Error! Need at least two data points!''"

definition msg_denom_zero :: string where
  "msg_denom_zero = ''Error! Denomominator is zero!''"

section \<open>The same function in binary64 arithmetic\<close>

text \<open>
  The numbers of the program are IEEE 754 binary64 values, and every arithmetic
  operation rounds its exact result to the nearest of them. The model above leaves
  the rounding out; this section keeps it, for the properties that depend on it.

  A binary64 value is a real number with a significand of 53 bits, an infinity or
  \<open>nan\<close>. The sign of zero is not modelled: \<open>-0.0\<close> is \<open>Fin 0\<close>. The function divides only
  by \<open>denom\<close>, after the guard, and by \<open>N - 2\<close>, so the sign of a zero never decides a
  result.
\<close>

datatype f64 = Fin real | PosInf | NegInf | NotANumber

text \<open>
  Rounding to the nearest value, ties to the even significand. The spacing of the
  values around \<open>v\<close> is \<open>2\<close> to the power \<open>b64_ulp_exp v\<close>: 52 bits below the leading bit
  of \<open>v\<close>, and never below that of the smallest normal number, \<open>2\<close> to the \<open>-1022\<close>. A
  result beyond the largest finite value is an infinity.
\<close>

definition round_half_even :: "real \<Rightarrow> int" where
  "round_half_even q =
     (let f = \<lfloor>q\<rfloor> in
      if q - of_int f < 1 / 2 then f
      else if 1 / 2 < q - of_int f then f + 1
      else if even f then f else f + 1)"

definition b64_max :: real where
  "b64_max = (2 ^ 53 - 1) * 2 ^ 971"

definition b64_ulp_exp :: "real \<Rightarrow> int" where
  "b64_ulp_exp v = max \<lfloor>log 2 \<bar>v\<bar>\<rfloor> (- 1022) - 52"

definition b64_round :: "real \<Rightarrow> f64" where
  "b64_round v =
     (if v = 0 then Fin 0
      else
        let e = b64_ulp_exp v;
            w = of_int (round_half_even (v / 2 powr of_int e)) * 2 powr of_int e
        in if b64_max < w then PosInf
           else if w < - b64_max then NegInf
           else Fin w)"

text \<open>The operations on binary64 values: the exact result, rounded.\<close>

fun f64_neg :: "f64 \<Rightarrow> f64" where
  "f64_neg (Fin a) = Fin (- a)"
| "f64_neg PosInf = NegInf"
| "f64_neg NegInf = PosInf"
| "f64_neg NotANumber = NotANumber"

fun f64_negative :: "f64 \<Rightarrow> bool" where
  "f64_negative (Fin a) = (a < 0)"
| "f64_negative NegInf = True"
| "f64_negative PosInf = False"
| "f64_negative NotANumber = False"

definition f64_inf :: "bool \<Rightarrow> f64" where
  "f64_inf negative = (if negative then NegInf else PosInf)"

fun f64_add :: "f64 \<Rightarrow> f64 \<Rightarrow> f64" where
  "f64_add NotANumber v = NotANumber"
| "f64_add u NotANumber = NotANumber"
| "f64_add (Fin a) (Fin b) = b64_round (a + b)"
| "f64_add PosInf NegInf = NotANumber"
| "f64_add NegInf PosInf = NotANumber"
| "f64_add PosInf v = PosInf"
| "f64_add NegInf v = NegInf"
| "f64_add (Fin a) v = v"

definition f64_sub :: "f64 \<Rightarrow> f64 \<Rightarrow> f64" where
  "f64_sub u v = f64_add u (f64_neg v)"

fun f64_mul :: "f64 \<Rightarrow> f64 \<Rightarrow> f64" where
  "f64_mul NotANumber v = NotANumber"
| "f64_mul u NotANumber = NotANumber"
| "f64_mul (Fin a) (Fin b) = b64_round (a * b)"
| "f64_mul u v =
     (if u = Fin 0 \<or> v = Fin 0 then NotANumber
      else f64_inf (f64_negative u \<noteq> f64_negative v))"

fun f64_div :: "f64 \<Rightarrow> f64 \<Rightarrow> f64" where
  "f64_div NotANumber v = NotANumber"
| "f64_div u NotANumber = NotANumber"
| "f64_div (Fin a) (Fin b) =
     (if b = 0 then (if a = 0 then NotANumber else f64_inf (a < 0))
      else b64_round (a / b))"
| "f64_div (Fin a) v = Fin 0"
| "f64_div u (Fin b) = f64_inf (f64_negative u \<noteq> (b < 0))"
| "f64_div u v = NotANumber"

fun f64_sqrt :: "f64 \<Rightarrow> f64" where
  "f64_sqrt (Fin a) = (if a < 0 then NotANumber else b64_round (sqrt a))"
| "f64_sqrt PosInf = PosInf"
| "f64_sqrt NegInf = NotANumber"
| "f64_sqrt NotANumber = NotANumber"

fun f64_abs :: "f64 \<Rightarrow> f64" where
  "f64_abs (Fin a) = Fin \<bar>a\<bar>"
| "f64_abs PosInf = PosInf"
| "f64_abs NegInf = PosInf"
| "f64_abs NotANumber = NotANumber"

fun f64_less :: "f64 \<Rightarrow> f64 \<Rightarrow> bool" where
  "f64_less (Fin a) (Fin b) = (a < b)"
| "f64_less (Fin a) PosInf = True"
| "f64_less NegInf (Fin b) = True"
| "f64_less NegInf PosInf = True"
| "f64_less u v = False"

definition f64_of_int :: "int \<Rightarrow> f64" where
  "f64_of_int n = b64_round (of_int n)"

text \<open>
  The array operations. \<open>np.sum\<close> starts from zero and adds the elements from left to
  right, as numpy does for an array of fewer than eight elements (longer arrays are
  summed in blocks, which this model does not follow). \<open>x**2\<close> on an array is the
  rounded product of each element with itself. On the scalars \<open>s_x\<close> and \<open>sigma\<close>,
  \<open>**2\<close> is the C library's \<open>pow\<close>, taken here as the correctly rounded square.
\<close>

type_synonym ndarray64 = "f64 list"

definition np_sum64 :: "ndarray64 \<Rightarrow> f64" where
  "np_sum64 v = foldl f64_add (Fin 0) v"

definition arr_square64 :: "ndarray64 \<Rightarrow> ndarray64" where
  "arr_square64 v = map (\<lambda>e. f64_mul e e) v"

definition scalar_mul64 :: "f64 \<Rightarrow> ndarray64 \<Rightarrow> ndarray64" where
  "scalar_mul64 c v = map (\<lambda>e. f64_mul c e) v"

definition scalar_add64 :: "f64 \<Rightarrow> ndarray64 \<Rightarrow> ndarray64" where
  "scalar_add64 c v = map (\<lambda>e. f64_add c e) v"

definition broadcast64 :: "(f64 \<Rightarrow> f64 \<Rightarrow> f64) \<Rightarrow> ndarray64 \<Rightarrow> ndarray64 \<Rightarrow> exn + ndarray64" where
  "broadcast64 f u v =
     (if length u = length v then Inr (map2 f u v)
      else if length u = 1 then Inr (map (\<lambda>e. f (hd u) e) v)
      else if length v = 1 then Inr (map (\<lambda>e. f e (hd v)) u)
      else Inl ValueError)"

text \<open>
  \<open>least_squares\<close> with every operation rounded. The control flow is that of the
  source, as above; \<open>0.000001\<close> is the binary64 value nearest to it. The warning that
  \<open>np.sqrt\<close> writes to standard error for a negative argument is not modelled.
\<close>

definition least_squares_b64 :: "ndarray64 \<Rightarrow> ndarray64 \<Rightarrow> stdout \<Rightarrow> stdout \<times> (exn + f64 list)" where
  "least_squares_b64 x y out =
     (let N = int (length x) in
      if N \<le> 2 then
        (py_print ''Error! Need at least two data points!'' out, Inl SystemExit)
      else
        let s_x = np_sum64 x;
            s_y = np_sum64 y;
            s_xx = np_sum64 (arr_square64 x)
        in
        case broadcast64 f64_mul x y of
          Inl e \<Rightarrow> (out, Inl e)
        | Inr xy \<Rightarrow>
            let s_xy = np_sum64 xy;
                denom = f64_sub (f64_mul (f64_of_int N) s_xx) (f64_mul s_x s_x)
            in
            if f64_less (f64_abs denom) (b64_round (1 / 1000000)) then
              (py_print ''Error! Denomominator is zero!'' out, Inl SystemExit)
            else
              let a = f64_div (f64_sub (f64_mul s_xx s_y) (f64_mul s_x s_xy)) denom;
                  b = f64_div (f64_sub (f64_mul (f64_of_int N) s_xy) (f64_mul s_x s_y)) denom
              in
              if N > 2 then
                case broadcast64 f64_sub y (scalar_add64 a (scalar_mul64 b x)) of
                  Inl e \<Rightarrow> (out, Inl e)
                | Inr res \<Rightarrow>
                    let sigma = f64_sqrt (f64_div (np_sum64 (arr_square64 res)) (f64_of_int (N - 2)));
                        sigma_a = f64_sqrt (f64_div (f64_mul (f64_mul sigma sigma) s_xx) denom);
                        sigma_b = f64_sqrt (f64_div (f64_mul (f64_mul sigma sigma) (f64_of_int N)) denom)
                    in (out, Inr [a, b, sigma, sigma_a, sigma_b])
              else
                (out, Inr [a, b, Fin 0, Fin 0, Fin 0]))"

text \<open>The value the function assigns to \<open>denom\<close> in binary64, as a function of \<open>x\<close>.\<close>

definition denom_b64 :: "ndarray64 \<Rightarrow> f64" where
  "denom_b64 x =
     f64_sub (f64_mul (f64_of_int (int (length x))) (np_sum64 (arr_square64 x)))
             (f64_mul (np_sum64 x) (np_sum64 x))"

section \<open>Auxiliary facts\<close>

subsection \<open>Sums over an array, by index\<close>

lemma sum_list_map_nth: "sum_list (map f xs) = (\<Sum>i<length xs. f (xs ! i))"
proof -
  have "sum_list (map f xs) = (\<Sum>i = 0..<length (map f xs). map f xs ! i)"
    by (rule sum_list_sum_nth)
  also have "\<dots> = (\<Sum>i<length xs. f (xs ! i))"
    by (simp add: lessThan_atLeast0)
  finally show ?thesis .
qed

lemma sum_list_map2_nth:
  assumes "length xs = length ys"
  shows "sum_list (map2 f xs ys) = (\<Sum>i<length xs. f (xs ! i) (ys ! i))"
proof -
  have "sum_list (map2 f xs ys) = (\<Sum>i<length (zip xs ys). (\<lambda>(p, q). f p q) (zip xs ys ! i))"
    by (rule sum_list_map_nth)
  also have "\<dots> = (\<Sum>i<length xs. f (xs ! i) (ys ! i))"
    using assms by simp
  finally show ?thesis .
qed

lemma np_sum_nth: "np_sum v = (\<Sum>i<length v. v ! i)"
  using sum_list_map_nth [of "\<lambda>e. e" v] by (simp add: np_sum_def)

lemma np_sum_pow_nth: "np_sum (arr_pow v k) = (\<Sum>i<length v. (v ! i) ^ k)"
  by (simp add: np_sum_def arr_pow_def sum_list_map_nth)

lemma np_sum_squares_nonneg: "0 \<le> np_sum (arr_pow v 2)"
  unfolding np_sum_def arr_pow_def by (rule sum_list_nonneg) auto

subsection \<open>The denominator is a sum of squared differences\<close>

text \<open>
  Adding one element \<open>v\<close> to the array adds \<open>(v - t)\<^sup>2\<close> for every element \<open>t\<close>
  already there, so \<open>denom\<close> is the sum of the squared differences of all pairs.
\<close>

lemma denom_of_Cons:
  "denom_of (v # x) = denom_of x + sum_list (map (\<lambda>t. (v - t) ^ 2) x)"
proof -
  have sq: "sum_list (map (\<lambda>t. (v - t) ^ 2) x)
      = real (length x) * v ^ 2 - 2 * v * sum_list x + sum_list (map (\<lambda>t. t ^ 2) x)"
    by (induction x) (simp_all add: power2_eq_square algebra_simps)
  show ?thesis
    unfolding denom_of_def np_sum_def arr_pow_def sq
    by (simp add: power2_eq_square algebra_simps)
qed

lemma denom_of_nonneg: "0 \<le> denom_of x"
proof (induction x)
  case Nil
  show ?case by (simp add: denom_of_def np_sum_def arr_pow_def)
next
  case (Cons v x)
  have "0 \<le> sum_list (map (\<lambda>t. (v - t) ^ 2) x)"
    by (rule sum_list_nonneg) auto
  with Cons show ?case by (simp add: denom_of_Cons)
qed

lemma denom_of_zero_iff_set: "denom_of x = 0 \<longleftrightarrow> (\<forall>t\<in>set x. \<forall>u\<in>set x. t = u)"
proof (induction x)
  case Nil
  show ?case by (simp add: denom_of_def np_sum_def arr_pow_def)
next
  case (Cons v x)
  have nn: "0 \<le> sum_list (map (\<lambda>t. (v - t) ^ 2) x)"
    by (rule sum_list_nonneg) auto
  have z: "sum_list (map (\<lambda>t. (v - t) ^ 2) x) = 0 \<longleftrightarrow> (\<forall>t\<in>set x. t = v)"
    by (subst sum_list_nonneg_eq_0_iff) auto
  have "denom_of (v # x) = 0 \<longleftrightarrow> denom_of x = 0 \<and> sum_list (map (\<lambda>t. (v - t) ^ 2) x) = 0"
    using nn denom_of_nonneg [of x] by (simp add: denom_of_Cons add_nonneg_eq_0_iff)
  also have "\<dots> \<longleftrightarrow> (\<forall>t\<in>set x. \<forall>u\<in>set x. t = u) \<and> (\<forall>t\<in>set x. t = v)"
    by (simp only: Cons.IH z)
  also have "\<dots> \<longleftrightarrow> (\<forall>t\<in>set (v # x). \<forall>u\<in>set (v # x). t = u)"
    by auto
  finally show ?case .
qed

lemma denom_of_nth:
  "denom_of x = real (length x) * (\<Sum>i<length x. (x ! i)\<^sup>2) - (\<Sum>i<length x. x ! i)\<^sup>2"
  by (simp add: denom_of_def np_sum_pow_nth np_sum_nth [of x])

subsection \<open>The paths through \<open>least_squares\<close>\<close>

lemma arr_mul_same_length:
  "length x = length y \<Longrightarrow> arr_mul x y = Inr (map2 (\<lambda>p q. p * q) x y)"
  by (simp add: arr_mul_def broadcast_def)

lemma arr_mul_ValueError:
  "length x \<noteq> length y \<Longrightarrow> length x \<noteq> 1 \<Longrightarrow> length y \<noteq> 1 \<Longrightarrow> arr_mul x y = Inl ValueError"
  by (simp add: arr_mul_def broadcast_def)

lemma residual_same_length:
  "length x = length y \<Longrightarrow>
   arr_sub y (scalar_add a (scalar_mul b x)) = Inr (map2 (\<lambda>p q. p - (a + b * q)) y x)"
  by (simp add: arr_sub_def broadcast_def scalar_add_def scalar_mul_def zip_map2 case_prod_beta)

lemma least_squares_too_few:
  "length x \<le> 2 \<Longrightarrow> least_squares x y out = (out @ [msg_too_few], Inl SystemExit)"
  by (simp add: least_squares_def py_print_def msg_too_few_def)

lemma least_squares_ValueError:
  assumes "2 < length x" "length y \<noteq> length x" "length y \<noteq> 1"
  shows "least_squares x y out = (out, Inl ValueError)"
proof -
  have "arr_mul x y = Inl ValueError"
    using assms by (intro arr_mul_ValueError) auto
  then show ?thesis
    using assms by (simp add: least_squares_def Let_def)
qed

lemma arr_mul_defined:
  assumes "2 < length x" "length y = length x \<or> length y = 1"
  shows "\<exists>xy. arr_mul x y = Inr xy"
  using assms by (auto simp: arr_mul_def broadcast_def)

lemma least_squares_degenerate:
  assumes "2 < length x" "length y = length x \<or> length y = 1" "\<bar>denom_of x\<bar> < 1 / 1000000"
  shows "least_squares x y out = (out @ [msg_denom_zero], Inl SystemExit)"
proof -
  obtain xy where xy: "arr_mul x y = Inr xy"
    using arr_mul_defined [OF assms(1,2)] by blast
  have d: "\<bar>real (length x) * np_sum (arr_pow x 2) - (np_sum x)\<^sup>2\<bar> < 1 / 1000000"
    using assms(3) by (simp add: denom_of_def)
  show ?thesis
    using assms(1) d by (simp add: least_squares_def Let_def xy py_print_def msg_denom_zero_def)
qed

lemma arr_sub_defined:
  assumes "length y = length x \<or> length y = 1"
  shows "\<exists>res. arr_sub y (scalar_add a (scalar_mul b x)) = Inr res"
  using assms by (auto simp: arr_sub_def broadcast_def scalar_add_def scalar_mul_def)

lemma least_squares_fit:
  assumes n: "2 < length x"
    and xy: "arr_mul x y = Inr xy"
    and d: "1 / 1000000 \<le> \<bar>denom_of x\<bar>"
    and a: "a = (np_sum (arr_pow x 2) * np_sum y - np_sum x * np_sum xy) / denom_of x"
    and b: "b = (real (length x) * np_sum xy - np_sum x * np_sum y) / denom_of x"
    and res: "arr_sub y (scalar_add a (scalar_mul b x)) = Inr res"
    and s: "s = sqrt (np_sum (arr_pow res 2) / (real (length x) - 2))"
  shows "least_squares x y out =
    (out, Inr [Num a, Num b, Num s,
               Num (sqrt (s\<^sup>2 * np_sum (arr_pow x 2) / denom_of x)),
               Num (sqrt (s\<^sup>2 * real (length x) / denom_of x))])"
proof -
  have dpos: "0 < denom_of x"
    using d denom_of_nonneg [of x] by linarith
  have guard: "\<not> \<bar>denom_of x\<bar> < 1 / 1000000"
    using d by linarith
  have r0: "\<not> np_sum (arr_pow res 2) / (real (length x) - 2) < 0"
    using n np_sum_squares_nonneg [of res] by (simp add: divide_less_0_iff)
  have a0: "\<not> s\<^sup>2 * np_sum (arr_pow x 2) / denom_of x < 0"
    using dpos np_sum_squares_nonneg [of x] by (simp add: divide_less_0_iff mult_less_0_iff)
  have b0: "\<not> s\<^sup>2 * real (length x) / denom_of x < 0"
    using dpos by (simp add: divide_less_0_iff mult_less_0_iff)
  have ls: "least_squares x y out =
     (let sigma = np_sqrt (Num (np_sum (arr_pow res 2) / (real (length x) - 2)));
          sigma_a = np_sqrt (nf_lift (\<lambda>s. s ^ 2 * np_sum (arr_pow x 2) / denom_of x) sigma);
          sigma_b = np_sqrt (nf_lift (\<lambda>s. s ^ 2 * real (length x) / denom_of x) sigma)
      in (out, Inr [Num a, Num b, sigma, sigma_a, sigma_b]))"
    using n guard res
    unfolding least_squares_def Let_def a b denom_of_def xy
    by simp
  show ?thesis
    unfolding ls Let_def using r0 a0 b0 by (simp add: s [symmetric])
qed

lemma least_squares_same_length:
  fixes x y :: ndarray
  assumes len: "length x = length y" and n: "2 < length x"
    and d: "1 / 1000000 \<le> \<bar>denom_of x\<bar>"
    and a: "a = ((\<Sum>i<length x. (x ! i)\<^sup>2) * (\<Sum>i<length x. y ! i)
              - (\<Sum>i<length x. x ! i) * (\<Sum>i<length x. x ! i * y ! i)) / denom_of x"
    and b: "b = (real (length x) * (\<Sum>i<length x. x ! i * y ! i)
              - (\<Sum>i<length x. x ! i) * (\<Sum>i<length x. y ! i)) / denom_of x"
    and s: "s = sqrt ((\<Sum>i<length x. (y ! i - (a + b * x ! i))\<^sup>2) / (real (length x) - 2))"
  shows "least_squares x y out =
    (out, Inr [Num a, Num b, Num s,
               Num (sqrt (s\<^sup>2 * (\<Sum>i<length x. (x ! i)\<^sup>2) / denom_of x)),
               Num (sqrt (s\<^sup>2 * real (length x) / denom_of x))])"
proof -
  let ?xy = "map2 (\<lambda>p q. p * q) x y"
  let ?res = "map2 (\<lambda>p q. p - (a + b * q)) y x"
  have xy: "arr_mul x y = Inr ?xy"
    using len by (rule arr_mul_same_length)
  have sxy: "np_sum ?xy = (\<Sum>i<length x. x ! i * y ! i)"
    unfolding np_sum_def using len by (rule sum_list_map2_nth)
  have sy: "np_sum y = (\<Sum>i<length x. y ! i)"
    by (simp add: np_sum_nth len)
  have res: "arr_sub y (scalar_add a (scalar_mul b x)) = Inr ?res"
    using len by (rule residual_same_length)
  have "np_sum (arr_pow ?res 2) = (\<Sum>i<length ?res. (?res ! i)\<^sup>2)"
    by (rule np_sum_pow_nth)
  also have "\<dots> = (\<Sum>i<length x. (y ! i - (a + b * x ! i))\<^sup>2)"
    using len by simp
  finally have rss: "np_sum (arr_pow ?res 2) = (\<Sum>i<length x. (y ! i - (a + b * x ! i))\<^sup>2)" .
  have a': "a = (np_sum (arr_pow x 2) * np_sum y - np_sum x * np_sum ?xy) / denom_of x"
    unfolding a sxy sy np_sum_pow_nth np_sum_nth [of x] ..
  have b': "b = (real (length x) * np_sum ?xy - np_sum x * np_sum y) / denom_of x"
    unfolding b sxy sy np_sum_nth [of x] ..
  have s': "s = sqrt (np_sum (arr_pow ?res 2) / (real (length x) - 2))"
    unfolding s rss ..
  show ?thesis
    using least_squares_fit [OF n xy d a' b' res s', of out]
    by (simp only: np_sum_pow_nth)
qed

lemma least_squares_InrD:
  assumes "least_squares x y out = (out', Inr r)"
  shows "2 < length x" and "length y = length x \<or> length y = 1"
    and "1 / 1000000 \<le> \<bar>denom_of x\<bar>" and "out' = out"
proof -
  show n: "2 < length x"
    using assms least_squares_too_few [of x y out] by (cases "length x \<le> 2") auto
  show len: "length y = length x \<or> length y = 1"
    using assms n least_squares_ValueError [of x y out] by auto
  show d: "1 / 1000000 \<le> \<bar>denom_of x\<bar>"
    using assms least_squares_degenerate [OF n len, of out]
    by (cases "\<bar>denom_of x\<bar> < 1 / 1000000") auto
  obtain xy where xy: "arr_mul x y = Inr xy"
    using arr_mul_defined [OF n len] by blast
  obtain res where "arr_sub y (scalar_add
        ((np_sum (arr_pow x 2) * np_sum y - np_sum x * np_sum xy) / denom_of x)
        (scalar_mul ((real (length x) * np_sum xy - np_sum x * np_sum y) / denom_of x) x))
      = Inr res"
    using arr_sub_defined [OF len] by blast
  from least_squares_fit [OF n xy d refl refl this refl, of out] assms
  show "out' = out" by simp
qed

lemma least_squares_returned_fit:
  assumes len: "length x = length y" and ret: "least_squares x y out = (out', Inr r)"
  obtains a b s where
    "a = ((\<Sum>i<length x. (x ! i)\<^sup>2) * (\<Sum>i<length x. y ! i)
              - (\<Sum>i<length x. x ! i) * (\<Sum>i<length x. x ! i * y ! i)) / denom_of x"
    "b = (real (length x) * (\<Sum>i<length x. x ! i * y ! i)
              - (\<Sum>i<length x. x ! i) * (\<Sum>i<length x. y ! i)) / denom_of x"
    "s = sqrt ((\<Sum>i<length x. (y ! i - (a + b * x ! i))\<^sup>2) / (real (length x) - 2))"
    "r = [Num a, Num b, Num s,
          Num (sqrt (s\<^sup>2 * (\<Sum>i<length x. (x ! i)\<^sup>2) / denom_of x)),
          Num (sqrt (s\<^sup>2 * real (length x) / denom_of x))]"
    "2 < length x" "0 < denom_of x" "out' = out"
proof -
  note ok = least_squares_InrD [OF ret]
  define a where "a = ((\<Sum>i<length x. (x ! i)\<^sup>2) * (\<Sum>i<length x. y ! i)
              - (\<Sum>i<length x. x ! i) * (\<Sum>i<length x. x ! i * y ! i)) / denom_of x"
  define b where "b = (real (length x) * (\<Sum>i<length x. x ! i * y ! i)
              - (\<Sum>i<length x. x ! i) * (\<Sum>i<length x. y ! i)) / denom_of x"
  define s where "s = sqrt ((\<Sum>i<length x. (y ! i - (a + b * x ! i))\<^sup>2) / (real (length x) - 2))"
  have "r = [Num a, Num b, Num s,
          Num (sqrt (s\<^sup>2 * (\<Sum>i<length x. (x ! i)\<^sup>2) / denom_of x)),
          Num (sqrt (s\<^sup>2 * real (length x) / denom_of x))]"
    using least_squares_same_length [OF len ok(1) ok(3) a_def b_def s_def, of out] ret
    by simp
  moreover have "0 < denom_of x"
    using ok(3) denom_of_nonneg [of x] by linarith
  ultimately show thesis
    using that [OF a_def b_def s_def] ok(1) ok(4) by blast
qed

lemma least_squares_returns:
  assumes n: "2 < length x" and len: "length y = length x \<or> length y = 1"
    and d: "1 / 1000000 \<le> \<bar>denom_of x\<bar>"
  shows "\<exists>a b s sa sb. 0 \<le> s \<and> 0 \<le> sa \<and> 0 \<le> sb \<and>
           (\<forall>out. least_squares x y out = (out, Inr [Num a, Num b, Num s, Num sa, Num sb]))"
proof -
  obtain xy where xy: "arr_mul x y = Inr xy"
    using arr_mul_defined [OF n len] by blast
  define a where "a = (np_sum (arr_pow x 2) * np_sum y - np_sum x * np_sum xy) / denom_of x"
  define b where "b = (real (length x) * np_sum xy - np_sum x * np_sum y) / denom_of x"
  obtain res where res: "arr_sub y (scalar_add a (scalar_mul b x)) = Inr res"
    using arr_sub_defined [OF len] by blast
  define s where "s = sqrt (np_sum (arr_pow res 2) / (real (length x) - 2))"
  have "\<forall>out. least_squares x y out =
    (out, Inr [Num a, Num b, Num s,
               Num (sqrt (s\<^sup>2 * np_sum (arr_pow x 2) / denom_of x)),
               Num (sqrt (s\<^sup>2 * real (length x) / denom_of x))])"
    using least_squares_fit [OF n xy d a_def b_def res s_def] by blast
  moreover have "0 < denom_of x"
    using d denom_of_nonneg [of x] by linarith
  then have "0 \<le> sqrt (s\<^sup>2 * np_sum (arr_pow x 2) / denom_of x)"
    and "0 \<le> sqrt (s\<^sup>2 * real (length x) / denom_of x)"
    using np_sum_squares_nonneg [of x] by simp_all
  moreover have "0 \<le> s"
    unfolding s_def using n np_sum_squares_nonneg [of res] by simp
  ultimately show ?thesis by blast
qed

subsection \<open>The normal equations\<close>

text \<open>The normal equations, solved: plain algebra over the reals.\<close>

lemma normal_equations:
  fixes n Sx Sy Sxx Sxy :: real
  assumes D: "n * Sxx - Sx\<^sup>2 \<noteq> 0"
    and a: "a = (Sxx * Sy - Sx * Sxy) / (n * Sxx - Sx\<^sup>2)"
    and b: "b = (n * Sxy - Sx * Sy) / (n * Sxx - Sx\<^sup>2)"
  shows "Sy - n * a - b * Sx = 0" and "Sxy - a * Sx - b * Sxx = 0"
proof -
  let ?D = "n * Sxx - Sx\<^sup>2"
  have aD: "a * ?D = Sxx * Sy - Sx * Sxy" and bD: "b * ?D = n * Sxy - Sx * Sy"
    using D by (simp_all add: a b)
  have "(Sy - n * a - b * Sx) * ?D = Sy * ?D - n * (a * ?D) - (b * ?D) * Sx"
    by (simp add: algebra_simps)
  also have "\<dots> = 0"
    unfolding aD bD by (simp add: algebra_simps power2_eq_square)
  finally show "Sy - n * a - b * Sx = 0"
    using D by simp
  have "(Sxy - a * Sx - b * Sxx) * ?D = Sxy * ?D - (a * ?D) * Sx - (b * ?D) * Sxx"
    by (simp add: algebra_simps)
  also have "\<dots> = 0"
    unfolding aD bD by (simp add: algebra_simps power2_eq_square)
  finally show "Sxy - a * Sx - b * Sxx = 0"
    using D by simp
qed

text \<open>Sums of residuals, split into the sufficient statistics.\<close>

lemma sum_residuals:
  fixes f g :: "nat \<Rightarrow> real"
  shows "(\<Sum>i<n. g i - a - b * f i) = (\<Sum>i<n. g i) - real n * a - b * (\<Sum>i<n. f i)"
  by (simp add: sum_subtractf sum_distrib_left)

lemma sum_weighted_residuals:
  fixes f g :: "nat \<Rightarrow> real"
  shows "(\<Sum>i<n. f i * (g i - a - b * f i))
       = (\<Sum>i<n. f i * g i) - a * (\<Sum>i<n. f i) - b * (\<Sum>i<n. (f i)\<^sup>2)"
proof -
  have "(\<Sum>i<n. f i * (g i - a - b * f i)) = (\<Sum>i<n. f i * g i - a * f i - b * (f i)\<^sup>2)"
    by (rule sum.cong) (simp_all add: algebra_simps power2_eq_square)
  then show ?thesis
    by (simp add: sum_subtractf sum_distrib_left)
qed

text \<open>
  When the residuals of \<open>(a, b)\<close> sum to zero, alone and weighted by \<open>f\<close>, no other
  line has a smaller sum of squared residuals.
\<close>

lemma orthogonal_residuals_minimal:
  fixes f g :: "nat \<Rightarrow> real"
  assumes r0: "(\<Sum>i<n. g i - a - b * f i) = 0"
    and r1: "(\<Sum>i<n. f i * (g i - a - b * f i)) = 0"
  shows "(\<Sum>i<n. (g i - a - b * f i)\<^sup>2) \<le> (\<Sum>i<n. (g i - a' - b' * f i)\<^sup>2)"
proof -
  let ?r = "\<lambda>i. g i - a - b * f i"
  let ?e = "\<lambda>i. (a - a') + (b - b') * f i"
  have "(\<Sum>i<n. (g i - a' - b' * f i)\<^sup>2)
      = (\<Sum>i<n. (?r i)\<^sup>2 + (2 * (a - a')) * ?r i + (2 * (b - b')) * (f i * ?r i) + (?e i)\<^sup>2)"
    by (rule sum.cong) (simp_all add: algebra_simps power2_eq_square)
  also have "\<dots> = (\<Sum>i<n. (?r i)\<^sup>2) + (2 * (a - a')) * (\<Sum>i<n. ?r i)
      + (2 * (b - b')) * (\<Sum>i<n. f i * ?r i) + (\<Sum>i<n. (?e i)\<^sup>2)"
    by (simp only: sum.distrib sum_distrib_left)
  also have "\<dots> = (\<Sum>i<n. (?r i)\<^sup>2) + (\<Sum>i<n. (?e i)\<^sup>2)"
    by (simp only: r0 r1)
  finally have "(\<Sum>i<n. (g i - a' - b' * f i)\<^sup>2) = (\<Sum>i<n. (?r i)\<^sup>2) + (\<Sum>i<n. (?e i)\<^sup>2)" .
  moreover have "0 \<le> (\<Sum>i<n. (?e i)\<^sup>2)"
    by (rule sum_nonneg) simp
  ultimately show ?thesis by linarith
qed

lemma fit_normal_equations:
  fixes x y :: ndarray
  assumes len: "length x = length y" and d: "denom_of x \<noteq> 0"
    and a: "a = ((\<Sum>i<length x. (x ! i)\<^sup>2) * (\<Sum>i<length x. y ! i)
              - (\<Sum>i<length x. x ! i) * (\<Sum>i<length x. x ! i * y ! i)) / denom_of x"
    and b: "b = (real (length x) * (\<Sum>i<length x. x ! i * y ! i)
              - (\<Sum>i<length x. x ! i) * (\<Sum>i<length x. y ! i)) / denom_of x"
  shows "(\<Sum>i<length x. y ! i - a - b * x ! i) = 0"
    and "(\<Sum>i<length x. x ! i * (y ! i - a - b * x ! i)) = 0"
proof -
  have D: "real (length x) * (\<Sum>i<length x. (x ! i)\<^sup>2) - (\<Sum>i<length x. x ! i)\<^sup>2 \<noteq> 0"
    using d unfolding denom_of_nth .
  note a' = a [unfolded denom_of_nth] and b' = b [unfolded denom_of_nth]
  show "(\<Sum>i<length x. y ! i - a - b * x ! i) = 0"
    unfolding sum_residuals by (rule normal_equations(1) [OF D a' b'])
  show "(\<Sum>i<length x. x ! i * (y ! i - a - b * x ! i)) = 0"
    unfolding sum_weighted_residuals by (rule normal_equations(2) [OF D a' b'])
qed

subsection \<open>Evaluation on concrete arrays\<close>

lemmas least_squares_eval = least_squares_def Let_def np_sum_def arr_pow_def arr_mul_def
  arr_sub_def broadcast_def scalar_add_def scalar_mul_def py_print_def

subsection \<open>Rounding to binary64\<close>

lemma round_half_even_error: "\<bar>of_int (round_half_even q) - q\<bar> \<le> 1 / 2"
proof -
  define f where "f = \<lfloor>q\<rfloor>"
  have f: "of_int f \<le> q" "q < of_int f + 1"
    unfolding f_def by linarith+
  have "round_half_even q = f \<and> q - of_int f \<le> 1 / 2 \<or>
        round_half_even q = f + 1 \<and> 1 / 2 \<le> q - of_int f"
    unfolding round_half_even_def Let_def f_def [symmetric] by auto
  with f show ?thesis
    by (auto simp: abs_if)
qed

lemma round_half_even_of_int: "round_half_even (of_int m) = m"
  by (simp add: round_half_even_def)

lemma b64_max_large: "2 ^ 1002 \<le> b64_max"
proof -
  have "(2 :: real) ^ 52 \<le> 2 ^ 53 - 1"
    by simp
  then have "(2 :: real) ^ 52 * 2 ^ 971 \<le> b64_max"
    unfolding b64_max_def by (intro mult_right_mono) simp_all
  moreover have "(2 :: real) ^ 1002 \<le> 2 ^ 52 * 2 ^ 971"
    unfolding power_add [symmetric] by (intro power_increasing) simp_all
  ultimately show ?thesis by linarith
qed

lemma b64_ulp_exp_eq:
  assumes "2 powr of_int k \<le> \<bar>v\<bar>" and "\<bar>v\<bar> < 2 powr (of_int k + 1)" and "- 1022 \<le> k"
  shows "b64_ulp_exp v = k - 52"
proof -
  have "0 < \<bar>v\<bar>"
    using assms(1) powr_gt_zero [of 2 "of_int k"] by linarith
  then have "\<lfloor>log 2 \<bar>v\<bar>\<rfloor> = k"
    using assms(1,2) by (simp add: floor_log_eq_powr_iff)
  with assms(3) show ?thesis
    by (simp add: b64_ulp_exp_def)
qed

lemma b64_round_core:
  assumes lo: "2 powr of_int k \<le> \<bar>v\<bar>" and hi: "\<bar>v\<bar> < 2 powr (of_int k + 1)"
    and k: "- 1022 \<le> k" "k \<le> 1000"
  defines "w \<equiv> of_int (round_half_even (v / 2 powr of_int (k - 52))) * 2 powr of_int (k - 52)"
  shows "b64_round v = Fin w" and "\<bar>w - v\<bar> \<le> 2 powr of_int (k - 53)"
proof -
  let ?u = "2 powr of_int (k - 52) :: real"
  have u: "0 < ?u" by simp
  have v: "v \<noteq> 0"
    using lo powr_gt_zero [of 2 "of_int k"] by auto
  have "w - v = (of_int (round_half_even (v / ?u)) - v / ?u) * ?u"
    using u by (simp add: w_def algebra_simps)
  then have "\<bar>w - v\<bar> = \<bar>of_int (round_half_even (v / ?u)) - v / ?u\<bar> * ?u"
    using u by (simp add: abs_mult)
  also have "\<dots> \<le> 1 / 2 * ?u"
    using u round_half_even_error [of "v / ?u"] by (intro mult_right_mono) simp_all
  also have "\<dots> = 2 powr of_int (k - 53)"
  proof -
    have "of_int (k - 52) = of_int (k - 53) + (1 :: real)" by simp
    then show ?thesis
      by (simp only: powr_add) simp
  qed
  finally show err: "\<bar>w - v\<bar> \<le> 2 powr of_int (k - 53)" .
  have "2 powr of_int (k - 53) \<le> (2 :: real) powr 1001"
    using k by (intro powr_mono) simp_all
  moreover have "2 powr (of_int k + 1) \<le> (2 :: real) powr 1001"
    using k by (intro powr_mono) simp_all
  moreover have "(2 :: real) powr 1001 = 2 ^ 1001"
    using powr_realpow [of 2 1001] by simp
  ultimately have "\<bar>w\<bar> < 2 * 2 ^ 1001"
    using err hi by linarith
  then have "\<bar>w\<bar> < b64_max"
    using b64_max_large by simp
  then have "\<not> b64_max < w" "\<not> w < - b64_max"
    by linarith+
  then show "b64_round v = Fin w"
    using v by (simp add: b64_round_def Let_def b64_ulp_exp_eq [OF lo hi k(1)] w_def)
qed

text \<open>Rounding evaluated, for a value whose leading bit is known.\<close>

lemma b64_round_ge1:
  fixes k :: nat
  assumes "2 ^ k \<le> \<bar>v\<bar>" and "\<bar>v\<bar> < 2 * 2 ^ k" and "k \<le> 1000"
  shows "b64_round v = Fin (of_int (round_half_even (v * 2 ^ 52 / 2 ^ k)) * 2 ^ k / 2 ^ 52)"
proof -
  have p: "2 powr real k = (2 :: real) ^ k"
    by (simp add: powr_realpow)
  have q: "2 powr (real k + 1) = (2 :: real) * 2 ^ k"
    by (simp add: powr_add powr_realpow)
  have "of_int (int k - 52) = real k - 52"
    by simp
  then have u: "2 powr of_int (int k - 52) = (2 :: real) ^ k / 2 ^ 52"
    using powr_realpow [of 2 52] by (simp add: powr_diff powr_realpow)
  have "b64_round v = Fin (of_int (round_half_even (v / 2 powr of_int (int k - 52)))
                           * 2 powr of_int (int k - 52))"
    using assms by (intro b64_round_core(1)) (simp_all add: p q)
  then show ?thesis
    by (simp only: u) (simp add: field_simps)
qed

lemma b64_round_lt1:
  fixes j :: nat
  assumes "1 / 2 ^ j \<le> \<bar>v\<bar>" and "\<bar>v\<bar> < 2 / 2 ^ j" and "j \<le> 1022"
  shows "b64_round v = Fin (of_int (round_half_even (v * (2 ^ 52 * 2 ^ j))) / (2 ^ 52 * 2 ^ j))"
proof -
  have p: "2 powr - real j = 1 / (2 :: real) ^ j"
    by (simp add: powr_minus powr_realpow inverse_eq_divide)
  have q: "2 powr (1 - real j) = 2 / (2 :: real) ^ j"
    by (simp add: powr_diff powr_realpow)
  have "of_int (- int j - 52) = - (real j + 52)"
    by simp
  then have "2 powr of_int (- int j - 52) = 1 / (2 :: real) powr (real j + 52)"
    by (simp only: powr_minus inverse_eq_divide)
  also have "\<dots> = 1 / (2 ^ 52 * 2 ^ j)"
    using powr_realpow [of 2 52] by (simp add: powr_add powr_realpow)
  finally have u: "2 powr of_int (- int j - 52) = 1 / ((2 :: real) ^ 52 * 2 ^ j)" .
  have "b64_round v = Fin (of_int (round_half_even (v / 2 powr of_int (- int j - 52)))
                           * 2 powr of_int (- int j - 52))"
    using assms by (intro b64_round_core(1)) (simp_all add: p q)
  then show ?thesis
    by (simp only: u) simp
qed

text \<open>The relative error of rounding is at most \<open>2\<close> to the \<open>-53\<close>.\<close>

lemma b64_round_near:
  assumes "1 / 2 ^ 1000 \<le> \<bar>v\<bar>" and "\<bar>v\<bar> \<le> 2 ^ 999"
  obtains w where "b64_round v = Fin w" and "\<bar>w - v\<bar> \<le> \<bar>v\<bar> / 2 ^ 53"
proof -
  define k where "k = \<lfloor>log 2 \<bar>v\<bar>\<rfloor>"
  have "(0 :: real) < 1 / 2 ^ 1000"
    by simp
  then have pos: "0 < \<bar>v\<bar>"
    using assms(1) by linarith
  have lo: "2 powr of_int k \<le> \<bar>v\<bar>" and hi: "\<bar>v\<bar> < 2 powr (of_int k + 1)"
    using floor_log_eq_powr_iff [of "\<bar>v\<bar>" 2 k] pos by (simp_all add: k_def)
  have "(2 :: real) powr - 1000 = 1 / 2 ^ 1000"
    using powr_realpow [of 2 1000] by (simp add: powr_minus inverse_eq_divide)
  then have "(2 :: real) powr - 1000 < 2 powr (of_int k + 1)"
    using assms(1) hi by linarith
  then have "(- 1000 :: real) < of_int k + 1"
    by (simp only: powr_less_cancel_iff)
  then have k0: "- 1022 \<le> k"
    by linarith
  have "(2 :: real) powr of_int k \<le> 2 powr 999"
    using lo assms(2) powr_realpow [of 2 999] by simp
  then have "of_int k \<le> (999 :: real)"
    by (simp only: powr_le_cancel_iff)
  then have k1: "k \<le> 1000"
    by linarith
  define w :: real
    where "w = of_int (round_half_even (v / 2 powr of_int (k - 52))) * 2 powr of_int (k - 52)"
  have r: "b64_round v = Fin w" and e: "\<bar>w - v\<bar> \<le> 2 powr of_int (k - 53)"
    unfolding w_def using lo hi k0 k1 by (intro b64_round_core; simp)+
  have "of_int (k - 53) = of_int k - (53 :: real)"
    by simp
  then have "2 powr of_int (k - 53) = 2 powr of_int k / (2 :: real) ^ 53"
    using powr_realpow [of 2 53] by (simp add: powr_diff)
  also have "\<dots> \<le> \<bar>v\<bar> / 2 ^ 53"
    using lo by (intro divide_right_mono) simp_all
  finally have "\<bar>w - v\<bar> \<le> \<bar>v\<bar> / 2 ^ 53"
    using e by linarith
  with r show thesis
    by (rule that)
qed

text \<open>Rounding keeps the sign and at least half of the magnitude.\<close>

lemma b64_round_positive:
  assumes "1 / 2 ^ 1000 \<le> v" and "v \<le> 2 ^ 999"
  obtains w where "b64_round v = Fin w" and "v / 2 \<le> w" and "w \<le> 2 * v"
proof -
  have v: "0 < v"
  proof -
    have "(0 :: real) < 1 / 2 ^ 1000" by simp
    with assms(1) show ?thesis by linarith
  qed
  from assms v obtain w where w: "b64_round v = Fin w" "\<bar>w - v\<bar> \<le> \<bar>v\<bar> / 2 ^ 53"
    using b64_round_near [of v] by auto
  have "v / 2 ^ 53 \<le> v / 2"
    using v by (intro divide_left_mono) simp_all
  with w(2) v have "v / 2 \<le> w" "w \<le> 2 * v"
    by (simp_all add: abs_if split: if_splits)
  with w(1) show thesis
    by (rule that)
qed

lemma b64_round_negative:
  assumes "v \<le> - (1 / 2 ^ 1000)" and "- (2 ^ 999) \<le> v"
  obtains w where "b64_round v = Fin w" and "w \<le> v / 2" and "2 * v \<le> w"
proof -
  have v: "v < 0"
  proof -
    have "(0 :: real) < 1 / 2 ^ 1000" by simp
    with assms(1) show ?thesis by linarith
  qed
  from assms v obtain w where w: "b64_round v = Fin w" "\<bar>w - v\<bar> \<le> \<bar>v\<bar> / 2 ^ 53"
    using b64_round_near [of v] by auto
  have "(- v) / 2 ^ 53 \<le> (- v) / 2"
    using v by (intro divide_left_mono) simp_all
  with w(2) v have "w \<le> v / 2" "2 * v \<le> w"
    by (simp_all add: abs_if split: if_splits)
  with w(1) show thesis
    by (rule that)
qed

subsection \<open>The roundings of one call\<close>

text \<open>
  The values that arise in the call with \<open>x = [100000001, 100000001, 100000001]\<close> and
  \<open>y = [1, 2, 3]\<close>. Three products are not binary64 values and are rounded; every
  other result is exact.
\<close>

lemma b64_exact_0: "b64_round 1 = Fin 1"
  by (subst b64_round_ge1 [where k = 0]) (simp_all add: round_half_even_def)

lemma b64_exact_1: "b64_round 2 = Fin 2"
  by (subst b64_round_ge1 [where k = 1]) (simp_all add: round_half_even_def)

lemma b64_exact_2: "b64_round 3 = Fin 3"
  by (subst b64_round_ge1 [where k = 1]) (simp_all add: round_half_even_def)

lemma b64_exact_3: "b64_round 6 = Fin 6"
  by (subst b64_round_ge1 [where k = 2]) (simp_all add: round_half_even_def)

lemma b64_exact_4: "b64_round (- 1) = Fin (- 1)"
  by (subst b64_round_ge1 [where k = 0]) (simp_all add: round_half_even_def)

lemma b64_exact_5: "b64_round (- 16) = Fin (- 16)"
  by (subst b64_round_ge1 [where k = 4]) (simp_all add: round_half_even_def)

lemma b64_exact_6: "b64_round (- 32) = Fin (- 32)"
  by (subst b64_round_ge1 [where k = 5]) (simp_all add: round_half_even_def)

lemma b64_exact_7: "b64_round 100000001 = Fin 100000001"
  by (subst b64_round_ge1 [where k = 26]) (simp_all add: round_half_even_def)

lemma b64_exact_8: "b64_round 200000002 = Fin 200000002"
  by (subst b64_round_ge1 [where k = 27]) (simp_all add: round_half_even_def)

lemma b64_exact_9: "b64_round 300000003 = Fin 300000003"
  by (subst b64_round_ge1 [where k = 28]) (simp_all add: round_half_even_def)

lemma b64_exact_10: "b64_round 600000006 = Fin 600000006"
  by (subst b64_round_ge1 [where k = 29]) (simp_all add: round_half_even_def)

lemma b64_exact_11: "b64_round 1800000018 = Fin 1800000018"
  by (subst b64_round_ge1 [where k = 30]) (simp_all add: round_half_even_def)

lemma b64_exact_12: "b64_round 10000000200000000 = Fin 10000000200000000"
  by (subst b64_round_ge1 [where k = 53]) (simp_all add: round_half_even_def)

lemma b64_exact_13: "b64_round 20000000400000000 = Fin 20000000400000000"
  by (subst b64_round_ge1 [where k = 54]) (simp_all add: round_half_even_def)

lemma b64_exact_14: "b64_round 30000000600000000 = Fin 30000000600000000"
  by (subst b64_round_ge1 [where k = 54]) (simp_all add: round_half_even_def)

lemma b64_exact_15: "b64_round 90000001800000000 = Fin 90000001800000000"
  by (subst b64_round_ge1 [where k = 56]) (simp_all add: round_half_even_def)

lemma b64_exact_16: "b64_round 180000003600000000 = Fin 180000003600000000"
  by (subst b64_round_ge1 [where k = 57]) (simp_all add: round_half_even_def)

lemma b64_round_square_x: "b64_round 10000000200000001 = Fin 10000000200000000"
  by (subst b64_round_ge1 [where k = 53]) (simp_all add: round_half_even_def)

lemma b64_round_square_s_x: "b64_round 90000001800000009 = Fin 90000001800000016"
  by (subst b64_round_ge1 [where k = 56]) (simp_all add: round_half_even_def)

lemma b64_round_s_x_s_xy: "b64_round 180000003600000018 = Fin 180000003600000032"
  by (subst b64_round_ge1 [where k = 57]) (simp_all add: round_half_even_def)

lemma b64_round_threshold: "b64_round (1 / 1000000) = Fin (4722366482869645 / 2 ^ 72)"
  by (subst b64_round_lt1 [where j = 20]) (simp_all add: round_half_even_def)

lemmas b64_exact = b64_exact_0 b64_exact_1 b64_exact_2 b64_exact_3 b64_exact_4 b64_exact_5 b64_exact_6 b64_exact_7 b64_exact_8 b64_exact_9 b64_exact_10 b64_exact_11 b64_exact_12 b64_exact_13 b64_exact_14 b64_exact_15 b64_exact_16 b64_round_square_x b64_round_square_s_x b64_round_s_x_s_xy b64_round_threshold


lemmas least_squares_b64_eval = least_squares_b64_def denom_b64_def Let_def np_sum64_def arr_square64_def
  scalar_mul64_def scalar_add64_def broadcast64_def f64_sub_def f64_of_int_def b64_round_def [of 0]

lemma sqrt_two_bounds: "1 \<le> sqrt 2" "sqrt 2 \<le> 2"
proof -
  show "1 \<le> sqrt 2"
    by simp
  have "sqrt 2 \<le> sqrt 4"
    by (simp only: real_sqrt_le_iff)
  then show "sqrt 2 \<le> 2"
    by simp
qed

lemma sqrt_of_rounded_negative:
  assumes c: "1 \<le> c" "c \<le> 2 ^ 100"
  shows "f64_sqrt (f64_div (f64_mul (f64_mul (b64_round (sqrt 2)) (b64_round (sqrt 2))) (Fin c))
                           (Fin (- 16))) = NotANumber"
proof -
  define tiny :: real where "tiny = 1 / 2 ^ 1000"
  define huge :: real where "huge = 2 ^ 999"
  have tiny: "tiny \<le> 1 / 256"
    unfolding tiny_def by (intro divide_left_mono) simp_all
  have "(2 :: real) ^ 107 \<le> 2 ^ 999"
    by (intro power_increasing) simp_all
  moreover have "64 * c \<le> 64 * (2 :: real) ^ 100"
    using c(2) by simp
  moreover have "64 * (2 :: real) ^ 100 \<le> 2 ^ 107"
    by simp
  ultimately have huge: "64 * c \<le> huge"
    unfolding huge_def by linarith
  note pos = b64_round_positive [folded tiny_def huge_def]
  note neg = b64_round_negative [folded tiny_def huge_def]
  have "tiny \<le> sqrt 2" "sqrt 2 \<le> huge"
    using sqrt_two_bounds tiny huge c(1) by linarith+
  from pos [OF this] obtain s
    where s: "b64_round (sqrt 2) = Fin s" and s_lo: "sqrt 2 / 2 \<le> s" and s_hi: "s \<le> 2 * sqrt 2"
    by blast
  have s1: "1 / 2 \<le> s" and s2: "s \<le> 4"
    using s_lo s_hi sqrt_two_bounds by linarith+
  have ss_lo: "1 / 4 \<le> s * s"
    using mult_mono [of "1 / 2" s "1 / 2" s] s1 by simp
  have ss_hi: "s * s \<le> 16"
    using mult_mono [of s 4 s 4] s1 s2 by simp
  have "tiny \<le> s * s" "s * s \<le> huge"
    using ss_lo ss_hi tiny huge c(1) by linarith+
  from pos [OF this] obtain t
    where t: "b64_round (s * s) = Fin t" and t_lo: "s * s / 2 \<le> t" and t_hi: "t \<le> 2 * (s * s)"
    by blast
  have t1: "1 / 8 \<le> t" and t2: "t \<le> 32"
    using t_lo t_hi ss_lo ss_hi by linarith+
  have tc_lo: "1 / 8 \<le> t * c"
    using mult_mono [of "1 / 8" t 1 c] t1 c(1) by simp
  have tc_hi: "t * c \<le> 32 * c"
    using mult_right_mono [of t 32 c] t2 c(1) by simp
  have "tiny \<le> t * c" "t * c \<le> huge"
    using tc_lo tc_hi tiny huge c(1) by linarith+
  from pos [OF this] obtain u
    where u: "b64_round (t * c) = Fin u" and u_lo: "t * c / 2 \<le> u" and u_hi: "u \<le> 2 * (t * c)"
    by blast
  have u1: "1 / 16 \<le> u" and u2: "u \<le> 64 * c"
    using u_lo u_hi tc_lo tc_hi by linarith+
  have "- (u / 16) \<le> - tiny" "- huge \<le> - (u / 16)"
    using u1 u2 tiny huge c(1) by linarith+
  from neg [OF this] obtain z
    where z: "b64_round (- (u / 16)) = Fin z" and z_hi: "z \<le> - (u / 16) / 2"
    by blast
  have "z < 0"
    using z_hi u1 by linarith
  then show ?thesis
    by (simp add: s t u z)
qed

section \<open>Properties\<close>

text \<open>
  Claim C1. For arrays of equal length that pass both guards (\<open>N > 2\<close> and
  \<open>|denom| \<ge> 1e-6\<close>) the call returns, and the returned intercept \<open>a\<close> and slope
  \<open>b\<close> minimise the sum of squared residuals: no real \<open>a'\<close>, \<open>b'\<close> gives a smaller
  sum of \<open>(y\<^sub>i - a' - b' * x\<^sub>i)\<^sup>2\<close>.
\<close>

theorem least_squares_minimizes:
  assumes "length x = length y" and "2 < length x" and "1 / 1000000 \<le> \<bar>denom_of x\<bar>"
  shows "\<exists>a b sigma sigma_a sigma_b.
           least_squares x y out = (out, Inr [Num a, Num b, sigma, sigma_a, sigma_b]) \<and>
           (\<forall>a' b'. (\<Sum>i<length x. (y ! i - a - b * x ! i)\<^sup>2)
                  \<le> (\<Sum>i<length x. (y ! i - a' - b' * x ! i)\<^sup>2))"
proof -
  define a where "a = ((\<Sum>i<length x. (x ! i)\<^sup>2) * (\<Sum>i<length x. y ! i)
              - (\<Sum>i<length x. x ! i) * (\<Sum>i<length x. x ! i * y ! i)) / denom_of x"
  define b where "b = (real (length x) * (\<Sum>i<length x. x ! i * y ! i)
              - (\<Sum>i<length x. x ! i) * (\<Sum>i<length x. y ! i)) / denom_of x"
  define s where "s = sqrt ((\<Sum>i<length x. (y ! i - (a + b * x ! i))\<^sup>2) / (real (length x) - 2))"
  note ret = least_squares_same_length [OF assms a_def b_def s_def, of out]
  have d: "denom_of x \<noteq> 0"
    using assms(3) by auto
  note ne = fit_normal_equations [OF assms(1) d a_def b_def]
  have "\<forall>a' b'. (\<Sum>i<length x. (y ! i - a - b * x ! i)\<^sup>2)
                  \<le> (\<Sum>i<length x. (y ! i - a' - b' * x ! i)\<^sup>2)"
    using orthogonal_residuals_minimal [OF ne] by blast
  with ret show ?thesis by blast
qed

theorem least_squares_minimizes_witness:
  "length [0, 1, 2 :: real] = length [1, 3, 4 :: real] \<and> 2 < length [0, 1, 2 :: real] \<and>
   1 / 1000000 \<le> \<bar>denom_of [0, 1, 2]\<bar> \<and>
   (\<exists>sigma sigma_a sigma_b.
      least_squares [0, 1, 2] [1, 3, 4] [] = ([], Inr [Num (7 / 6), Num (3 / 2), sigma, sigma_a, sigma_b])) \<and>
   (\<forall>a' b' :: real. 1 / 6 \<le> (1 - a')\<^sup>2 + (3 - a' - b')\<^sup>2 + (4 - a' - b' * 2)\<^sup>2)"
proof -
  let ?x = "[0, 1, 2 :: real]" and ?y = "[1, 3, 4 :: real]"
  have len: "length ?x = length ?y" and n: "2 < length ?x"
    by simp_all
  have d: "1 / 1000000 \<le> \<bar>denom_of ?x\<bar>"
    by (simp add: denom_of_def np_sum_def arr_pow_def)
  from least_squares_minimizes [OF len n d, of "[]"] obtain a b sigma sigma_a sigma_b where
    ls: "least_squares ?x ?y [] = ([], Inr [Num a, Num b, sigma, sigma_a, sigma_b])"
    and least: "\<And>a' b'. (\<Sum>i<length ?x. (?y ! i - a - b * ?x ! i)\<^sup>2)
                  \<le> (\<Sum>i<length ?x. (?y ! i - a' - b' * ?x ! i)\<^sup>2)"
    by blast
  have "\<exists>s sa sb. least_squares ?x ?y [] = ([], Inr [Num (7 / 6), Num (3 / 2), s, sa, sb])"
    by (simp add: least_squares_eval)
  with ls have a: "a = 7 / 6" and b: "b = 3 / 2"
    by auto
  have fitted: "(\<Sum>i<length ?x. (?y ! i - a - b * ?x ! i)\<^sup>2) = 1 / 6"
    unfolding a b by (simp add: lessThan_Suc power2_eq_square)
  have other: "(\<Sum>i<length ?x. (?y ! i - a' - b' * ?x ! i)\<^sup>2)
       = (1 - a')\<^sup>2 + (3 - a' - b')\<^sup>2 + (4 - a' - b' * 2)\<^sup>2" for a' b' :: real
    by (simp add: lessThan_Suc)
  have "\<forall>a' b' :: real. 1 / 6 \<le> (1 - a')\<^sup>2 + (3 - a' - b')\<^sup>2 + (4 - a' - b' * 2)\<^sup>2"
    using least unfolding fitted other by blast
  with ls len n d show ?thesis unfolding a b by blast
qed

text \<open>
  Claim C2, as the specification states it: a guard failure is reported as an
  error value that tells the caller which guard failed, without ending the
  process. The function does otherwise: both guards end in \<open>sys.exit()\<close>, so both
  raise the same \<open>SystemExit\<close>, the exception that asks the interpreter to exit.
\<close>

theorem guard_failures_raise_same_exit:
  "snd (least_squares [1, 2] [1, 2] []) = Inl SystemExit \<and>
   snd (least_squares [5, 5, 5, 5] [1, 2, 3, 4] []) = Inl SystemExit"
  by (simp add: least_squares_eval)

text \<open>
  Claim C2, amended. On every input on which a guard fires (at most two points, or
  arrays of equal length whose \<open>|denom|\<close> is below \<open>1e-6\<close>) the function prints the
  message of that guard on standard output and raises \<open>SystemExit\<close>. The two
  messages differ, so the printed line is what tells the guards apart; nothing is
  returned, so no sentinel value reaches the caller.
\<close>

theorem guard_failure_prints_and_exits:
  assumes "length x \<le> 2 \<or> (length x = length y \<and> \<bar>denom_of x\<bar> < 1 / 1000000)"
  shows "least_squares x y out =
           (out @ [if length x \<le> 2 then msg_too_few else msg_denom_zero], Inl SystemExit) \<and>
         msg_too_few \<noteq> msg_denom_zero"
proof (cases "length x \<le> 2")
  case True
  then show ?thesis
    by (simp add: least_squares_too_few msg_too_few_def msg_denom_zero_def)
next
  case False
  with assms have "2 < length x" "length y = length x \<or> length y = 1"
    "\<bar>denom_of x\<bar> < 1 / 1000000"
    by auto
  from least_squares_degenerate [OF this] False show ?thesis
    by (simp add: msg_too_few_def msg_denom_zero_def)
qed

theorem guard_failure_prints_and_exits_witness:
  "least_squares [1, 2] [1, 2] [] = ([''Error! Need at least two data points!''], Inl SystemExit) \<and>
   least_squares [5, 5, 5, 5] [1, 2, 3, 4] [] = ([''Error! Denomominator is zero!''], Inl SystemExit)"
proof -
  have "length [1, 2 :: real] \<le> 2 \<or>
      (length [1, 2 :: real] = length [1, 2 :: real] \<and> \<bar>denom_of [1, 2]\<bar> < 1 / 1000000)"
    by simp
  from guard_failure_prints_and_exits [OF this, of "[]"]
  have g1: "least_squares [1, 2] [1, 2] [] = ([''Error! Need at least two data points!''], Inl SystemExit)"
    by (simp add: msg_too_few_def)
  have "length [5, 5, 5, 5 :: real] \<le> 2 \<or>
      (length [5, 5, 5, 5 :: real] = length [1, 2, 3, 4 :: real] \<and> \<bar>denom_of [5, 5, 5, 5]\<bar> < 1 / 1000000)"
    by (simp add: denom_of_def np_sum_def arr_pow_def)
  from guard_failure_prints_and_exits [OF this, of "[]"]
  have g2: "least_squares [5, 5, 5, 5] [1, 2, 3, 4] [] = ([''Error! Denomominator is zero!''], Inl SystemExit)"
    by (simp add: msg_denom_zero_def)
  from g1 g2 show ?thesis by simp
qed

text \<open>
  Claim C3. On every call with arrays of equal length that returns, the first two
  elements of the returned list are the closed-form solutions
  \<open>a = (s_xx * s_y - s_x * s_xy) / denom\<close> and \<open>b = (N * s_xy - s_x * s_y) / denom\<close>,
  where \<open>s_x\<close>, \<open>s_y\<close>, \<open>s_xx\<close>, \<open>s_xy\<close> are the sums of \<open>x\<^sub>i\<close>, \<open>y\<^sub>i\<close>,
  \<open>x\<^sub>i\<^sup>2\<close>, \<open>x\<^sub>i * y\<^sub>i\<close> over the indices and \<open>denom = N * s_xx - s_x\<^sup>2\<close> is the
  value the function computes.
\<close>

theorem closed_form_solution:
  assumes "length x = length y" and "least_squares x y out = (out', Inr r)"
  shows "let n = real (length x);
             s_x = (\<Sum>i<length x. x ! i);
             s_y = (\<Sum>i<length x. y ! i);
             s_xx = (\<Sum>i<length x. (x ! i)\<^sup>2);
             s_xy = (\<Sum>i<length x. x ! i * y ! i);
             denom = n * s_xx - s_x\<^sup>2
         in denom = denom_of x \<and>
            (\<exists>sigma sigma_a sigma_b.
               r = [Num ((s_xx * s_y - s_x * s_xy) / denom),
                    Num ((n * s_xy - s_x * s_y) / denom),
                    sigma, sigma_a, sigma_b])"
proof -
  note ok = least_squares_InrD [OF assms(2)]
  define a where "a = ((\<Sum>i<length x. (x ! i)\<^sup>2) * (\<Sum>i<length x. y ! i)
              - (\<Sum>i<length x. x ! i) * (\<Sum>i<length x. x ! i * y ! i)) / denom_of x"
  define b where "b = (real (length x) * (\<Sum>i<length x. x ! i * y ! i)
              - (\<Sum>i<length x. x ! i) * (\<Sum>i<length x. y ! i)) / denom_of x"
  define s where "s = sqrt ((\<Sum>i<length x. (y ! i - (a + b * x ! i))\<^sup>2) / (real (length x) - 2))"
  have "\<exists>sigma sigma_a sigma_b. r = [Num a, Num b, sigma, sigma_a, sigma_b]"
    using least_squares_same_length [OF assms(1) ok(1) ok(3) a_def b_def s_def, of out] assms(2)
    by simp
  then show ?thesis
    unfolding Let_def denom_of_nth [symmetric] a_def b_def by simp
qed

theorem closed_form_solution_witness:
  "length [0, 1, 2 :: real] = length [1, 3, 4 :: real] \<and>
   least_squares [0, 1, 2] [1, 3, 4] [] =
     ([], Inr [Num (7 / 6), Num (3 / 2), Num (sqrt (1 / 6)), Num (sqrt (5 / 36)), Num (sqrt (1 / 12))]) \<and>
   3 * 5 - 3\<^sup>2 = denom_of [0, 1, 2] \<and>
   (\<exists>sigma sigma_a sigma_b.
      [Num (7 / 6), Num (3 / 2), Num (sqrt (1 / 6)), Num (sqrt (5 / 36)), Num (sqrt (1 / 12))] =
      [Num ((5 * 8 - 3 * 11) / (3 * 5 - 3\<^sup>2)), Num ((3 * 11 - 3 * 8) / (3 * 5 - 3\<^sup>2)),
       sigma, sigma_a, sigma_b])"
proof -
  let ?x = "[0, 1, 2 :: real]" and ?y = "[1, 3, 4 :: real]"
  have ls: "least_squares ?x ?y [] =
     ([], Inr [Num (7 / 6), Num (3 / 2), Num (sqrt (1 / 6)), Num (sqrt (5 / 36)), Num (sqrt (1 / 12))])"
    by (simp add: least_squares_eval power2_eq_square)
  have len: "length ?x = length ?y"
    by simp
  have n: "real (length ?x) = 3"
    by simp
  have s_x: "(\<Sum>i<length ?x. ?x ! i) = 3" and s_y: "(\<Sum>i<length ?x. ?y ! i) = 8"
    and s_xx: "(\<Sum>i<length ?x. (?x ! i)\<^sup>2) = 5" and s_xy: "(\<Sum>i<length ?x. ?x ! i * ?y ! i) = 11"
    by (simp_all add: lessThan_Suc)
  from closed_form_solution [OF len ls, unfolded Let_def]
  show ?thesis
    unfolding n s_x s_y s_xx s_xy using len ls by blast
qed

text \<open>
  Claim C4. On every call with arrays of equal length that returns, the last three
  elements of the returned list are \<open>sigma = sqrt (RSS / (N - 2))\<close> with \<open>RSS\<close> the
  sum of \<open>(y\<^sub>i - (a + b * x\<^sub>i))\<^sup>2\<close> for the returned \<open>a\<close> and \<open>b\<close>,
  \<open>sigma_a = sqrt (sigma\<^sup>2 * s_xx / denom)\<close> and \<open>sigma_b = sqrt (sigma\<^sup>2 * N / denom)\<close>.
  Every returning call has \<open>N > 2\<close>, so the branch that sets the three to zero
  never produces a returned list.
\<close>

theorem uncertainty_outputs:
  assumes "length x = length y" and "least_squares x y out = (out', Inr r)"
  shows "2 < length x \<and>
         (\<exists>a b. let n = real (length x);
                    RSS = (\<Sum>i<length x. (y ! i - (a + b * x ! i))\<^sup>2);
                    sigma = sqrt (RSS / (n - 2));
                    s_xx = (\<Sum>i<length x. (x ! i)\<^sup>2);
                    denom = denom_of x
                in r = [Num a, Num b, Num sigma,
                        Num (sqrt (sigma\<^sup>2 * s_xx / denom)),
                        Num (sqrt (sigma\<^sup>2 * n / denom))])"
proof -
  from assms obtain a b s where fit:
    "a = ((\<Sum>i<length x. (x ! i)\<^sup>2) * (\<Sum>i<length x. y ! i)
              - (\<Sum>i<length x. x ! i) * (\<Sum>i<length x. x ! i * y ! i)) / denom_of x"
    "b = (real (length x) * (\<Sum>i<length x. x ! i * y ! i)
              - (\<Sum>i<length x. x ! i) * (\<Sum>i<length x. y ! i)) / denom_of x"
    "s = sqrt ((\<Sum>i<length x. (y ! i - (a + b * x ! i))\<^sup>2) / (real (length x) - 2))"
    "r = [Num a, Num b, Num s,
          Num (sqrt (s\<^sup>2 * (\<Sum>i<length x. (x ! i)\<^sup>2) / denom_of x)),
          Num (sqrt (s\<^sup>2 * real (length x) / denom_of x))]"
    "2 < length x" "0 < denom_of x" "out' = out"
    by (rule least_squares_returned_fit)
  have "let n = real (length x);
            RSS = (\<Sum>i<length x. (y ! i - (a + b * x ! i))\<^sup>2);
            sigma = sqrt (RSS / (n - 2));
            s_xx = (\<Sum>i<length x. (x ! i)\<^sup>2);
            denom = denom_of x
        in r = [Num a, Num b, Num sigma,
                Num (sqrt (sigma\<^sup>2 * s_xx / denom)),
                Num (sqrt (sigma\<^sup>2 * n / denom))]"
    unfolding Let_def fit(3) [symmetric] by (rule fit(4))
  with fit(5) show ?thesis by blast
qed

theorem uncertainty_outputs_witness:
  "length [0, 1, 2 :: real] = length [1, 3, 4 :: real] \<and>
   2 < length [0, 1, 2 :: real] \<and>
   least_squares [0, 1, 2] [1, 3, 4] [] =
     ([], Inr [Num (7 / 6), Num (3 / 2),
               Num (sqrt ((1 / 6) / (3 - 2))),
               Num (sqrt ((sqrt ((1 / 6) / (3 - 2)))\<^sup>2 * 5 / 6)),
               Num (sqrt ((sqrt ((1 / 6) / (3 - 2)))\<^sup>2 * 3 / 6))])"
proof -
  let ?x = "[0, 1, 2 :: real]" and ?y = "[1, 3, 4 :: real]"
  obtain s sa sb where ls:
    "least_squares ?x ?y [] = ([], Inr [Num (7 / 6), Num (3 / 2), s, sa, sb])"
    by (simp add: least_squares_eval)
  have len: "length ?x = length ?y"
    by simp
  from uncertainty_outputs [OF len ls, unfolded Let_def] obtain a b where
    n: "2 < length ?x" and
    r: "[Num (7 / 6), Num (3 / 2), s, sa, sb] =
        [Num a, Num b,
         Num (sqrt ((\<Sum>i<length ?x. (?y ! i - (a + b * ?x ! i))\<^sup>2) / (real (length ?x) - 2))),
         Num (sqrt ((sqrt ((\<Sum>i<length ?x. (?y ! i - (a + b * ?x ! i))\<^sup>2) / (real (length ?x) - 2)))\<^sup>2
                * (\<Sum>i<length ?x. (?x ! i)\<^sup>2) / denom_of ?x)),
         Num (sqrt ((sqrt ((\<Sum>i<length ?x. (?y ! i - (a + b * ?x ! i))\<^sup>2) / (real (length ?x) - 2)))\<^sup>2
                * real (length ?x) / denom_of ?x))]"
    by blast
  have a: "a = 7 / 6" and b: "b = 3 / 2"
    using r by simp_all
  have rss: "(\<Sum>i<length ?x. (?y ! i - (7 / 6 + 3 / 2 * ?x ! i))\<^sup>2) = 1 / 6"
    by (simp add: lessThan_Suc power2_eq_square)
  have s_xx: "(\<Sum>i<length ?x. (?x ! i)\<^sup>2) = 5"
    by (simp add: lessThan_Suc)
  have d: "denom_of ?x = 6"
    by (simp add: denom_of_def np_sum_def arr_pow_def)
  have nn: "real (length ?x) = 3"
    by simp
  note r' = r [unfolded a b, unfolded rss s_xx d nn]
  show ?thesis
    using n len ls unfolding r' by blast
qed

text \<open>
  Claim C5. Whenever \<open>x\<close> has at most two elements the call ends in the first
  guard: it prints the too-few-points message and raises \<open>SystemExit\<close>, which is the
  failure the specification calls InsufficientData. This holds for every \<open>y\<close>,
  also one whose length would make \<open>x * y\<close> raise \<open>ValueError\<close>: the guard is
  taken before any of the statistics is computed, and no result list is returned.
\<close>

theorem insufficient_data_guard:
  assumes "length x \<le> 2"
  shows "least_squares x y out = (out @ [msg_too_few], Inl SystemExit)"
  using assms by (simp add: least_squares_def py_print_def msg_too_few_def)

theorem insufficient_data_guard_witness:
  "length [1 :: real, 2] \<le> 2 \<and>
   least_squares [1, 2] [1, 2, 3, 4, 5] [] = ([msg_too_few], Inl SystemExit)"
  using insufficient_data_guard [of "[1, 2]" "[1, 2, 3, 4, 5]" "[]"] by simp

text \<open>
  Claim C6. For arrays of equal length with more than two points: when \<open>|denom|\<close>
  is below \<open>1e-6\<close> the call ends in the second guard, which prints the
  zero-denominator message and raises \<open>SystemExit\<close> (the failure the specification
  calls DegenerateInput); otherwise neither guard fires and a list of five values is
  returned, with standard output untouched. In \<open>least_squares\<close> the guard is tested
  on \<open>denom\<close> before \<open>a\<close> and \<open>b\<close> are computed.
\<close>

theorem degenerate_input_guard:
  assumes "length x = length y" and "2 < length x"
  shows "(\<bar>denom_of x\<bar> < 1 / 1000000 \<longrightarrow>
            least_squares x y out = (out @ [msg_denom_zero], Inl SystemExit)) \<and>
         (1 / 1000000 \<le> \<bar>denom_of x\<bar> \<longrightarrow>
            (\<exists>r. least_squares x y out = (out, Inr r) \<and> length r = 5))"
proof (intro conjI impI)
  assume "\<bar>denom_of x\<bar> < 1 / 1000000"
  with assms show "least_squares x y out = (out @ [msg_denom_zero], Inl SystemExit)"
    by (intro least_squares_degenerate) simp_all
next
  assume "1 / 1000000 \<le> \<bar>denom_of x\<bar>"
  with assms obtain a b s sa sb
    where "least_squares x y out = (out, Inr [Num a, Num b, Num s, Num sa, Num sb])"
    using least_squares_returns [of x y] by auto
  then show "\<exists>r. least_squares x y out = (out, Inr r) \<and> length r = 5"
    by simp
qed

theorem degenerate_input_guard_witness:
  "(length [5, 5, 5, 5 :: real] = length [1, 2, 3, 4 :: real] \<and> 2 < length [5, 5, 5, 5 :: real] \<and>
    \<bar>denom_of [5, 5, 5, 5]\<bar> < 1 / 1000000 \<and>
    least_squares [5, 5, 5, 5] [1, 2, 3, 4] [] = ([msg_denom_zero], Inl SystemExit)) \<and>
   (length [0, 1, 2 :: real] = length [1, 3, 4 :: real] \<and> 2 < length [0, 1, 2 :: real] \<and>
    1 / 1000000 \<le> \<bar>denom_of [0, 1, 2]\<bar> \<and>
    (\<exists>r. least_squares [0, 1, 2] [1, 3, 4] [] = ([], Inr r) \<and> length r = 5))"
proof -
  have d1: "\<bar>denom_of [5, 5, 5, 5]\<bar> < 1 / 1000000"
    by (simp add: denom_of_def np_sum_def arr_pow_def)
  have d2: "1 / 1000000 \<le> \<bar>denom_of [0, 1, 2]\<bar>"
    by (simp add: denom_of_def np_sum_def arr_pow_def)
  have "length [5, 5, 5, 5 :: real] = length [1, 2, 3, 4 :: real]" "2 < length [5, 5, 5, 5 :: real]"
    by simp_all
  from degenerate_input_guard [OF this, of "[]"] d1
  have g1: "least_squares [5, 5, 5, 5] [1, 2, 3, 4] [] = ([msg_denom_zero], Inl SystemExit)"
    by simp
  have "length [0, 1, 2 :: real] = length [1, 3, 4 :: real]" "2 < length [0, 1, 2 :: real]"
    by simp_all
  from degenerate_input_guard [OF this, of "[]"] d2
  have g2: "\<exists>r. least_squares [0, 1, 2] [1, 3, 4] [] = ([], Inr r) \<and> length r = 5"
    by blast
  from d1 d2 g1 g2 show ?thesis by simp
qed

text \<open>
  Claim C7. On every call with arrays of equal length that returns, the residuals
  \<open>r\<^sub>i = y\<^sub>i - a - b * x\<^sub>i\<close> of the returned intercept and slope satisfy the normal
  equations exactly: they sum to zero, and so do the products \<open>x\<^sub>i * r\<^sub>i\<close>.
\<close>

theorem residual_orthogonality:
  assumes "length x = length y" and "least_squares x y out = (out', Inr r)"
  shows "\<exists>a b. r ! 0 = Num a \<and> r ! 1 = Num b \<and>
           (\<Sum>i<length x. y ! i - a - b * x ! i) = 0 \<and>
           (\<Sum>i<length x. x ! i * (y ! i - a - b * x ! i)) = 0"
proof -
  from assms obtain a b s where fit:
    "a = ((\<Sum>i<length x. (x ! i)\<^sup>2) * (\<Sum>i<length x. y ! i)
              - (\<Sum>i<length x. x ! i) * (\<Sum>i<length x. x ! i * y ! i)) / denom_of x"
    "b = (real (length x) * (\<Sum>i<length x. x ! i * y ! i)
              - (\<Sum>i<length x. x ! i) * (\<Sum>i<length x. y ! i)) / denom_of x"
    "s = sqrt ((\<Sum>i<length x. (y ! i - (a + b * x ! i))\<^sup>2) / (real (length x) - 2))"
    "r = [Num a, Num b, Num s,
          Num (sqrt (s\<^sup>2 * (\<Sum>i<length x. (x ! i)\<^sup>2) / denom_of x)),
          Num (sqrt (s\<^sup>2 * real (length x) / denom_of x))]"
    "2 < length x" "0 < denom_of x" "out' = out"
    by (rule least_squares_returned_fit)
  have d: "denom_of x \<noteq> 0"
    using fit(6) by simp
  have "r ! 0 = Num a" "r ! 1 = Num b"
    by (simp_all add: fit(4))
  with fit_normal_equations [OF assms(1) d fit(1) fit(2)]
  show ?thesis by blast
qed

theorem residual_orthogonality_witness:
  "length [0, 1, 2 :: real] = length [1, 3, 4 :: real] \<and>
   (\<exists>s sa sb. least_squares [0, 1, 2] [1, 3, 4] [] = ([], Inr [Num (7 / 6), Num (3 / 2), s, sa, sb])) \<and>
   (1 - 7 / 6 - 3 / 2 * 0) + (3 - 7 / 6 - 3 / 2 * 1) + (4 - 7 / 6 - 3 / 2 * 2) = (0 :: real) \<and>
   0 * (1 - 7 / 6 - 3 / 2 * 0) + 1 * (3 - 7 / 6 - 3 / 2 * 1) + 2 * (4 - 7 / 6 - 3 / 2 * 2) = (0 :: real)"
proof -
  let ?x = "[0, 1, 2 :: real]" and ?y = "[1, 3, 4 :: real]"
  obtain s sa sb where ls:
    "least_squares ?x ?y [] = ([], Inr [Num (7 / 6), Num (3 / 2), s, sa, sb])"
    by (simp add: least_squares_eval)
  have len: "length ?x = length ?y"
    by simp
  from residual_orthogonality [OF len ls] obtain a b where
    ab: "[Num (7 / 6), Num (3 / 2), s, sa, sb] ! 0 = Num a"
        "[Num (7 / 6), Num (3 / 2), s, sa, sb] ! 1 = Num b"
    and r0: "(\<Sum>i<length ?x. ?y ! i - a - b * ?x ! i) = 0"
    and r1: "(\<Sum>i<length ?x. ?x ! i * (?y ! i - a - b * ?x ! i)) = 0"
    by blast
  have a: "a = 7 / 6" and b: "b = 3 / 2"
    using ab by simp_all
  have e0: "(\<Sum>i<length ?x. ?y ! i - a - b * ?x ! i)
      = (1 - 7 / 6 - 3 / 2 * 0) + (3 - 7 / 6 - 3 / 2 * 1) + (4 - 7 / 6 - 3 / 2 * 2)"
    unfolding a b by (simp add: lessThan_Suc)
  have e1: "(\<Sum>i<length ?x. ?x ! i * (?y ! i - a - b * ?x ! i))
      = 0 * (1 - 7 / 6 - 3 / 2 * 0) + 1 * (3 - 7 / 6 - 3 / 2 * 1) + 2 * (4 - 7 / 6 - 3 / 2 * 2)"
    unfolding a b by (simp add: lessThan_Suc)
  have z0: "(1 - 7 / 6 - 3 / 2 * 0) + (3 - 7 / 6 - 3 / 2 * 1) + (4 - 7 / 6 - 3 / 2 * 2) = (0 :: real)"
    using r0 unfolding e0 .
  have z1: "0 * (1 - 7 / 6 - 3 / 2 * 0) + 1 * (3 - 7 / 6 - 3 / 2 * 1) + 2 * (4 - 7 / 6 - 3 / 2 * 2) = (0 :: real)"
    using r1 unfolding e1 .
  from len ls z0 z1 show ?thesis by blast
qed

text \<open>
  Claim C8. For every array \<open>x\<close>, the value \<open>denom = N * \<Sum>x\<^sub>i\<^sup>2 - (\<Sum>x\<^sub>i)\<^sup>2\<close> that
  the function computes is zero exactly when all elements of \<open>x\<close> are equal.
\<close>

theorem denom_zero_iff_all_equal:
  "denom_of x = real (length x) * (\<Sum>i<length x. (x ! i)\<^sup>2) - (\<Sum>i<length x. x ! i)\<^sup>2 \<and>
   (denom_of x = 0 \<longleftrightarrow> (\<forall>i<length x. \<forall>j<length x. x ! i = x ! j))"
proof -
  have "(\<forall>t\<in>set x. \<forall>u\<in>set x. t = u) \<longleftrightarrow> (\<forall>i<length x. \<forall>j<length x. x ! i = x ! j)"
    by (simp add: all_set_conv_all_nth)
  then show ?thesis
    using denom_of_zero_iff_set [of x] denom_of_nth [of x] by simp
qed

theorem denom_zero_iff_all_equal_witness:
  "denom_of [5, 5, 5, 5] = 0 \<and> denom_of [1, 2, 3] \<noteq> 0"
proof -
  have "\<forall>i<length [5, 5, 5, 5 :: real]. \<forall>j<length [5, 5, 5, 5 :: real].
          [5, 5, 5, 5 :: real] ! i = [5, 5, 5, 5] ! j"
    by (simp add: All_less_Suc)
  with denom_zero_iff_all_equal [of "[5, 5, 5, 5]"]
  have e: "denom_of [5, 5, 5, 5] = 0" by blast
  have "\<not> (\<forall>i<length [1, 2, 3 :: real]. \<forall>j<length [1, 2, 3 :: real].
          [1, 2, 3 :: real] ! i = [1, 2, 3] ! j)"
    by (simp add: All_less_Suc)
  with denom_zero_iff_all_equal [of "[1, 2, 3]"]
  have "denom_of [1, 2, 3] \<noteq> 0" by blast
  with e show ?thesis by simp
qed

text \<open>
  Claim C9, as the specification states it: the function is free of side effects.
  It is not: a call on which a guard fires writes a line to standard output.
\<close>

theorem guard_failure_writes_stdout:
  "fst (least_squares [1, 2] [1, 2] []) = [''Error! Need at least two data points!''] \<and>
   fst (least_squares [1, 2] [1, 2] []) \<noteq> []"
  by (simp add: least_squares_eval)

text \<open>
  Claim C9, amended. The function is deterministic and reads no outside state: the
  lines it prints and its result (the returned list or the exception) are
  determined by \<open>x\<close> and \<open>y\<close> alone, whatever standard output held before. Its only
  effect is on standard output. With at most two points it prints the
  too-few-points message and raises \<open>SystemExit\<close>. Otherwise, when \<open>y\<close> cannot be
  broadcast against \<open>x\<close>, it prints nothing and raises \<open>ValueError\<close>. Otherwise, when
  \<open>|denom|\<close> is below \<open>1e-6\<close>, it prints the zero-denominator message and raises
  \<open>SystemExit\<close>. In every other case it prints nothing and returns a list.
\<close>

theorem outcome_determined_by_inputs:
  "\<exists>lines res.
     (\<forall>out. least_squares x y out = (out @ lines, res)) \<and>
     (if length x \<le> 2 then
        lines = [''Error! Need at least two data points!''] \<and> res = Inl SystemExit
      else if length y \<noteq> length x \<and> length y \<noteq> 1 then
        lines = [] \<and> res = Inl ValueError
      else if \<bar>denom_of x\<bar> < 1 / 1000000 then
        lines = [''Error! Denomominator is zero!''] \<and> res = Inl SystemExit
      else
        lines = [] \<and> (\<exists>r. res = Inr r))"
proof -
  consider (few) "length x \<le> 2"
    | (shape) "2 < length x" "length y \<noteq> length x" "length y \<noteq> 1"
    | (degenerate) "2 < length x" "length y = length x \<or> length y = 1"
        "\<bar>denom_of x\<bar> < 1 / 1000000"
    | (fit) "2 < length x" "length y = length x \<or> length y = 1"
        "1 / 1000000 \<le> \<bar>denom_of x\<bar>"
    by linarith
  then show ?thesis
  proof cases
    case few
    then have "\<forall>out. least_squares x y out
        = (out @ [''Error! Need at least two data points!''], Inl SystemExit)"
      by (simp add: least_squares_too_few msg_too_few_def)
    with few show ?thesis by auto
  next
    case shape
    then have "\<forall>out. least_squares x y out = (out @ [], Inl ValueError)"
      by (simp add: least_squares_ValueError)
    with shape show ?thesis by auto
  next
    case degenerate
    then have "\<forall>out. least_squares x y out
        = (out @ [''Error! Denomominator is zero!''], Inl SystemExit)"
      by (simp add: least_squares_degenerate msg_denom_zero_def)
    with degenerate show ?thesis by auto
  next
    case fit
    from least_squares_returns [OF this] obtain r
      where "\<forall>out. least_squares x y out = (out @ [], Inr r)"
      by auto
    with fit show ?thesis by auto
  qed
qed

theorem outcome_determined_by_inputs_witness:
  "(\<forall>out. least_squares [1, 2] [1, 2] out
       = (out @ [''Error! Need at least two data points!''], Inl SystemExit)) \<and>
   (\<forall>out. least_squares [5, 5, 5] [1, 2] out = (out, Inl ValueError)) \<and>
   (\<forall>out. least_squares [5, 5, 5, 5] [1, 2, 3, 4] out
       = (out @ [''Error! Denomominator is zero!''], Inl SystemExit)) \<and>
   (\<exists>r. \<forall>out. least_squares [0, 1, 2] [1, 3, 4] out = (out, Inr r))"
proof -
  have d1: "\<bar>denom_of [5, 5, 5, 5]\<bar> < 1 / 1000000"
    by (simp add: denom_of_def np_sum_def arr_pow_def)
  have d2: "\<not> \<bar>denom_of [0, 1, 2]\<bar> < 1 / 1000000"
    by (simp add: denom_of_def np_sum_def arr_pow_def)
  from outcome_determined_by_inputs [of "[1, 2]" "[1, 2]"]
  have g1: "\<forall>out. least_squares [1, 2] [1, 2] out
       = (out @ [''Error! Need at least two data points!''], Inl SystemExit)"
    by auto
  from outcome_determined_by_inputs [of "[5, 5, 5]" "[1, 2]"]
  have g2: "\<forall>out. least_squares [5, 5, 5] [1, 2] out = (out, Inl ValueError)"
    by auto
  from outcome_determined_by_inputs [of "[5, 5, 5, 5]" "[1, 2, 3, 4]"] d1
  have g3: "\<forall>out. least_squares [5, 5, 5, 5] [1, 2, 3, 4] out
       = (out @ [''Error! Denomominator is zero!''], Inl SystemExit)"
    by auto
  from outcome_determined_by_inputs [of "[0, 1, 2]" "[1, 3, 4]"] d2
  have g4: "\<exists>r. \<forall>out. least_squares [0, 1, 2] [1, 3, 4] out = (out, Inr r)"
    by auto
  from g1 g2 g3 g4 show ?thesis by blast
qed

text \<open>
  Claim C10, as the specification states it: on every call that returns, \<open>denom\<close> is
  positive and \<open>sigma\<close>, \<open>sigma_a\<close>, \<open>sigma_b\<close> are non-negative numbers. In the binary64
  arithmetic of the program this fails. For \<open>x = [100000001, 100000001, 100000001]\<close>
  the squares and the square of the sum are rounded, and the computed \<open>denom\<close> is
  \<open>-16\<close> where the exact value is \<open>0\<close>. The guard tests \<open>abs(denom)\<close>, so the call goes on
  and returns \<open>nan\<close> for \<open>sigma_a\<close> and \<open>sigma_b\<close>.
\<close>

theorem rounded_denom_negative_gives_nan:
  "denom_b64 [Fin 100000001, Fin 100000001, Fin 100000001] = Fin (- 16) \<and>
   least_squares_b64 [Fin 100000001, Fin 100000001, Fin 100000001] [Fin 1, Fin 2, Fin 3] []
     = ([], Inr [Fin 2, Fin 0, f64_sqrt (Fin 2), NotANumber, NotANumber])"
proof -
  have a: "f64_sqrt (f64_div (f64_mul (f64_mul (b64_round (sqrt 2)) (b64_round (sqrt 2)))
             (Fin 30000000600000000)) (Fin (- 16))) = NotANumber"
    by (rule sqrt_of_rounded_negative) simp_all
  have b: "f64_sqrt (f64_div (f64_mul (f64_mul (b64_round (sqrt 2)) (b64_round (sqrt 2)))
             (Fin 3)) (Fin (- 16))) = NotANumber"
    by (rule sqrt_of_rounded_negative) simp_all
  show ?thesis
    by (simp add: least_squares_b64_eval b64_exact a b)
qed

text \<open>
  Claim C10, amended. For every array \<open>x\<close> the exact value of \<open>denom\<close> is non-negative.
  When the arithmetic is exact, on every call that returns it is strictly
  positive, the arguments of the three square roots are non-negative (for whatever
  \<open>a\<close>, \<open>b\<close> and \<open>sigma\<close>), and \<open>sigma\<close>, \<open>sigma_a\<close>, \<open>sigma_b\<close> are numbers, never \<open>nan\<close>, and
  non-negative.
\<close>

theorem uncertainties_well_defined:
  "0 \<le> denom_of x \<and>
   (\<forall>out out' r. least_squares x y out = (out', Inr r) \<longrightarrow>
      0 < denom_of x \<and>
      (\<forall>a b s. 0 \<le> (\<Sum>i<length x. (y ! i - (a + b * x ! i))\<^sup>2) / (real (length x) - 2) \<and>
               0 \<le> s\<^sup>2 * (\<Sum>i<length x. (x ! i)\<^sup>2) / denom_of x \<and>
               0 \<le> s\<^sup>2 * real (length x) / denom_of x) \<and>
      (\<exists>a b sigma sigma_a sigma_b.
         r = [Num a, Num b, Num sigma, Num sigma_a, Num sigma_b] \<and>
         0 \<le> sigma \<and> 0 \<le> sigma_a \<and> 0 \<le> sigma_b))"
proof (intro conjI allI impI)
  show "0 \<le> denom_of x"
    by (rule denom_of_nonneg)
next
  fix out out' r
  assume ret: "least_squares x y out = (out', Inr r)"
  note ok = least_squares_InrD [OF ret]
  show pos: "0 < denom_of x"
    using ok(3) denom_of_nonneg [of x] by linarith
  show "\<exists>a b sigma sigma_a sigma_b.
         r = [Num a, Num b, Num sigma, Num sigma_a, Num sigma_b] \<and>
         0 \<le> sigma \<and> 0 \<le> sigma_a \<and> 0 \<le> sigma_b"
    using least_squares_returns [OF ok(1) ok(2) ok(3)] ret by fastforce
  fix a b s
  have "0 \<le> (\<Sum>i<length x. (y ! i - (a + b * x ! i))\<^sup>2)"
    by (rule sum_nonneg) simp
  then show "0 \<le> (\<Sum>i<length x. (y ! i - (a + b * x ! i))\<^sup>2) / (real (length x) - 2)"
    using ok(1) by simp
  have "0 \<le> (\<Sum>i<length x. (x ! i)\<^sup>2)"
    by (rule sum_nonneg) simp
  then show "0 \<le> s\<^sup>2 * (\<Sum>i<length x. (x ! i)\<^sup>2) / denom_of x"
    using pos by simp
  show "0 \<le> s\<^sup>2 * real (length x) / denom_of x"
    using pos by simp
qed

theorem uncertainties_well_defined_witness:
  "least_squares [0, 1, 2] [1, 3, 4] [] =
     ([], Inr [Num (7 / 6), Num (3 / 2), Num (sqrt (1 / 6)), Num (sqrt (5 / 36)), Num (sqrt (1 / 12))]) \<and>
   0 < denom_of [0, 1, 2] \<and>
   (\<exists>a b sigma sigma_a sigma_b.
      [Num (7 / 6), Num (3 / 2), Num (sqrt (1 / 6)), Num (sqrt (5 / 36)), Num (sqrt (1 / 12))] =
      [Num a, Num b, Num sigma, Num sigma_a, Num sigma_b] \<and>
      0 \<le> sigma \<and> 0 \<le> sigma_a \<and> 0 \<le> sigma_b)"
proof -
  have ls: "least_squares [0, 1, 2] [1, 3, 4] [] =
     ([], Inr [Num (7 / 6), Num (3 / 2), Num (sqrt (1 / 6)), Num (sqrt (5 / 36)), Num (sqrt (1 / 12))])"
    by (simp add: least_squares_eval power2_eq_square)
  from uncertainties_well_defined [of "[0, 1, 2]" "[1, 3, 4]"] ls
  show ?thesis by blast
qed

end
